theory Spec2Isabelle
  imports
    Main
    "HOL-Library.Char_ord"
    "HOL-Library.List_Lexorder"
    "HOL-Library.Product_Lexorder"
    "HOL-Library.Option_ord"
begin

section \<open>Values shared by the helpers of \<^verbatim>\<open>minio/helpers.py\<close>\<close>

text \<open>
  The module runs on Python 2 and on Python 3: line 25 takes \<^verbatim>\<open>basestring\<close> and the URL
  helpers from \<^verbatim>\<open>minio.compat\<close>. A string is a list of 8-bit characters and integers
  are unbounded. Where the two interpreters differ, in the division of line 251, the
  interpreter is a parameter. Every exception a helper can raise is a constructor of
  \<open>error\<close>; a helper that can raise returns \<open>error + 'a\<close>, with \<open>Inl\<close> for the exception.
\<close>

type_synonym bytes = string

datatype error =
    NameError
  | TypeError
  | ValueError
  | IndexError
  | InvalidBucketError
  | InvalidEndpointError
  | ZeroDivisionError
  | OverflowError

section \<open>String operations of Python used by the helpers\<close>

definition is_letter :: "char \<Rightarrow> bool" where
  "is_letter c = ((CHR ''A'' \<le> c \<and> c \<le> CHR ''Z'') \<or> (CHR ''a'' \<le> c \<and> c \<le> CHR ''z''))"

definition is_digit :: "char \<Rightarrow> bool" where
  "is_digit c = (CHR ''0'' \<le> c \<and> c \<le> CHR ''9'')"

definition to_lower :: "char \<Rightarrow> char" where
  "to_lower c =
     (case map_of (zip ''ABCDEFGHIJKLMNOPQRSTUVWXYZ'' ''abcdefghijklmnopqrstuvwxyz'') c of
        None \<Rightarrow> c
      | Some l \<Rightarrow> l)"

definition to_upper :: "char \<Rightarrow> char" where
  "to_upper c =
     (case map_of (zip ''abcdefghijklmnopqrstuvwxyz'' ''ABCDEFGHIJKLMNOPQRSTUVWXYZ'') c of
        None \<Rightarrow> c
      | Some u \<Rightarrow> u)"

text \<open>\<^verbatim>\<open>s.lower()\<close>.\<close>

definition lower :: "string \<Rightarrow> string" where
  "lower s = map to_lower s"

text \<open>\<^verbatim>\<open>needle in hay\<close> on strings: \<open>needle\<close> occurs in \<open>hay\<close> as a contiguous run.\<close>

fun str_contains :: "string \<Rightarrow> string \<Rightarrow> bool" where
  "str_contains needle [] = (needle = [])"
| "str_contains needle (y # ys) =
     (take (length needle) (y # ys) = needle \<or> str_contains needle ys)"


text \<open>
  \<^verbatim>\<open>s.strip()\<close>: the whitespace of a byte string is space, tab, line feed, vertical
  tab, form feed and carriage return.
\<close>

definition is_space :: "char \<Rightarrow> bool" where
  "is_space c = (c \<in> set [CHR '' '', CHR 0x09, CHR 0x0A, CHR 0x0B, CHR 0x0C, CHR 0x0D])"

definition strip :: "string \<Rightarrow> string" where
  "strip s = rev (dropWhile is_space (rev (dropWhile is_space s)))"

text \<open>\<^verbatim>\<open>sep.join(parts)\<close>.\<close>

fun join :: "string \<Rightarrow> string list \<Rightarrow> string" where
  "join sep [] = []"
| "join sep [x] = x"
| "join sep (x # y # ys) = x @ sep @ join sep (y # ys)"

text \<open>\<^verbatim>\<open>s.replace('/', '%2F')\<close>.\<close>

definition replace_slash :: "string \<Rightarrow> string" where
  "replace_slash s = concat (map (\<lambda>c. if c = CHR ''/'' then ''%2F'' else [c]) s)"

section \<open>Regular expressions of the module \<^verbatim>\<open>re\<close>\<close>

text \<open>
  The constructs that the two patterns of \<^verbatim>\<open>helpers.py\<close> use: a literal character,
  a character class given by its ranges, \<^verbatim>\<open>^\<close>, \<^verbatim>\<open>$\<close>, the negative lookahead
  \<^verbatim>\<open>(?!p)\<close>, the negative lookbehind \<^verbatim>\<open>(?<!c)\<close> of one literal character, sequence,
  and the greedy repetition \<^verbatim>\<open>p{m,n}\<close>, where \<^verbatim>\<open>p*\<close> is \<open>Rep 0 None p\<close> and \<^verbatim>\<open>p+\<close> is
  \<open>Rep 1 None p\<close>. Groups only delimit; no helper reads a group.
\<close>

datatype regex =
    Lit char
  | Cls "(char \<times> char) list"
  | Bol
  | Eol
  | NotAhead regex
  | NotBehind char
  | Seq regex regex
  | Rep nat "nat option" regex

fun in_ranges :: "(char \<times> char) list \<Rightarrow> char \<Rightarrow> bool" where
  "in_ranges [] c = False"
| "in_ranges ((lo, hi) # rs) c = ((lo \<le> c \<and> c \<le> hi) \<or> in_ranges rs c)"

text \<open>
  With \<^verbatim>\<open>re.IGNORECASE\<close> (the flag \<open>ic\<close>) a character is in a class when it or its
  other case is, and equals a literal up to case.
\<close>

definition in_class :: "bool \<Rightarrow> (char \<times> char) list \<Rightarrow> char \<Rightarrow> bool" where
  "in_class ic rs c =
     (in_ranges rs c \<or> (ic \<and> (in_ranges rs (to_lower c) \<or> in_ranges rs (to_upper c))))"

definition char_eq :: "bool \<Rightarrow> char \<Rightarrow> char \<Rightarrow> bool" where
  "char_eq ic x c = (x = c \<or> (ic \<and> to_lower x = to_lower c))"

fun rsize :: "regex \<Rightarrow> nat" where
  "rsize (NotAhead p) = Suc (rsize p)"
| "rsize (Seq p q) = Suc (rsize p + rsize q)"
| "rsize (Rep m n p) = Suc (rsize p)"
| "rsize _ = 0"

text \<open>
  A cursor is a position in the subject string: the characters before it and the
  characters from it on. \<open>rmatch ic p k\<close> lists the cursors at which a match of \<open>p\<close>
  that starts at \<open>k\<close> can end, in the order in which the backtracking matcher of
  \<^verbatim>\<open>re\<close> tries them: a greedy repetition tries one more iteration before it tries to
  stop. \<^verbatim>\<open>$\<close> holds at the end of the string and also just before a line feed that is
  the last character of the string (no \<^verbatim>\<open>re.MULTILINE\<close> here). An iteration that
  consumes nothing is not repeated; no repeated pattern of this module can match the
  empty string.
\<close>

type_synonym cursor = "string \<times> string"

function rmatch :: "bool \<Rightarrow> regex \<Rightarrow> cursor \<Rightarrow> cursor list" where
  "rmatch ic (Lit c) (b, r) =
     (case r of [] \<Rightarrow> [] | x # r' \<Rightarrow> if char_eq ic x c then [(b @ [x], r')] else [])"
| "rmatch ic (Cls rs) (b, r) =
     (case r of [] \<Rightarrow> [] | x # r' \<Rightarrow> if in_class ic rs x then [(b @ [x], r')] else [])"
| "rmatch ic Bol (b, r) = (if b = [] then [(b, r)] else [])"
| "rmatch ic Eol (b, r) = (if r = [] \<or> r = [CHR 0x0A] then [(b, r)] else [])"
| "rmatch ic (NotAhead p) (b, r) = (if rmatch ic p (b, r) = [] then [(b, r)] else [])"
| "rmatch ic (NotBehind c) (b, r) = (if b \<noteq> [] \<and> last b = c then [] else [(b, r)])"
| "rmatch ic (Seq p q) (b, r) = concat (map (\<lambda>k. rmatch ic q k) (rmatch ic p (b, r)))"
| "rmatch ic (Rep m n p) (b, r) =
     (if n = Some 0 then [(b, r)]
      else concat (map (\<lambda>k. if length (snd k) < length r
                              then rmatch ic (Rep (m - 1) (map_option (\<lambda>j. j - 1) n) p) k
                              else [])
                       (rmatch ic p (b, r)))
           @ (if m = 0 then [(b, r)] else []))"
  by pat_completeness auto
termination
  by (relation "measures [\<lambda>(ic, p, k). rsize p, \<lambda>(ic, p, k). length (snd k)]") auto

text \<open>
  \<^verbatim>\<open>pattern.match(s)\<close>: the first match that starts at the beginning of \<open>s\<close>, if
  there is one; of the match object only \<^verbatim>\<open>end()\<close> is read.
\<close>

definition re_match :: "bool \<Rightarrow> regex \<Rightarrow> string \<Rightarrow> nat option" where
  "re_match ic p s =
     (case rmatch ic p ([], s) of [] \<Rightarrow> None | (b, r) # _ \<Rightarrow> Some (length b))"

section \<open>The helpers imported from \<^verbatim>\<open>minio.compat\<close>\<close>

text \<open>
  Line 25 imports \<^verbatim>\<open>urlsplit\<close>, \<^verbatim>\<open>basestring\<close> and \<^verbatim>\<open>urlencode\<close> from
  \<^verbatim>\<open>minio.compat\<close>. Of the parsed endpoint the helpers read the scheme, the network
  location and the host name.
\<close>

record SplitResult =
  scheme :: string
  netloc :: string

definition scheme_char :: "char \<Rightarrow> bool" where
  "scheme_char c = (is_letter c \<or> is_digit c \<or> c \<in> set ''+-.'')"

text \<open>The characters that the parser removes from a URL: tab, carriage return, line feed.\<close>

definition unsafe_url_byte :: "char \<Rightarrow> bool" where
  "unsafe_url_byte c = (c \<in> set [CHR 0x09, CHR 0x0D, CHR 0x0A])"

text \<open>
  Modelled from the spec: \<^verbatim>\<open>compat.urlsplit\<close> is not among the sources. Section 4.3
  parses the endpoint "into scheme + host" and section 6 gives its shape,
  \<^verbatim>\<open>scheme://host[:port]\<close>. As the URL parser of the standard library does, it first
  removes every tab, carriage return and line feed from the endpoint. The scheme is
  the text before the first colon, in lower case, when that text is a well-formed
  scheme name; the network location is what follows \<^verbatim>\<open>//\<close>, up to the first of \<^verbatim>\<open>/\<close>,
  \<^verbatim>\<open>?\<close> and \<^verbatim>\<open>#\<close>.
\<close>

definition urlsplit :: "string \<Rightarrow> SplitResult" where
  "urlsplit endpoint =
     (let url = filter (\<lambda>c. \<not> unsafe_url_byte c) endpoint;
          pre = takeWhile (\<lambda>c. c \<noteq> CHR '':'') url;
          has_scheme = (length pre < length url \<and> pre \<noteq> [] \<and> list_all scheme_char pre);
          url' = (if has_scheme then drop (Suc (length pre)) url else url)
      in \<lparr>scheme = (if has_scheme then lower pre else []),
          netloc = (if take 2 url' = ''//''
                    then takeWhile (\<lambda>c. c \<notin> set ''/?#'') (drop 2 url')
                    else [])\<rparr>)"


text \<open>The characters that percent-encoding keeps, and the encoding of one that it does not.\<close>

definition always_safe :: "char \<Rightarrow> bool" where
  "always_safe c = (is_letter c \<or> is_digit c \<or> c \<in> set ''_.-~'')"

definition hex_digit :: "nat \<Rightarrow> char" where
  "hex_digit n = ''0123456789ABCDEF'' ! (n mod 16)"

definition quote_char :: "char \<Rightarrow> string" where
  "quote_char c =
     (if always_safe c then [c]
      else [CHR ''%'', hex_digit (of_char c div 16), hex_digit (of_char c)])"

text \<open>
  Modelled from the spec: \<^verbatim>\<open>compat.urlencode\<close> is not among the sources. Section 4.2
  has it percent-encode a name "for safe inclusion in a URL path segment", and
  section 8 writes the \<^verbatim>\<open>/\<close> of an object name as \<^verbatim>\<open>%2F\<close>. Letters, digits and \<^verbatim>\<open>_.-~\<close>
  are kept; every other byte, \<^verbatim>\<open>/\<close> among them, becomes \<^verbatim>\<open>%XX\<close> with two upper-case
  hexadecimal digits.
\<close>

definition urlencode :: "string \<Rightarrow> string" where
  "urlencode s = concat (map quote_char s)"

section \<open>The module namespace\<close>

text \<open>
  The names that the statements of \<^verbatim>\<open>helpers.py\<close> bind at module level: four
  \<^verbatim>\<open>import\<close> statements (lines 20-23), two \<^verbatim>\<open>from ... import\<close> statements (lines 25-26),
  one class and the function definitions. A reference to a global name inside a
  function body is looked up here when the function runs (none of the names below is
  shadowed by a local), and a name that is neither here nor a builtin raises
  \<^verbatim>\<open>NameError\<close>. The name \<^verbatim>\<open>tempfile\<close> is not a Python builtin.
\<close>

definition module_globals :: "string list" where
  "module_globals =
    [''collections'', ''binascii'', ''hashlib'', ''re'',
     ''urlsplit'', ''basestring'', ''urlencode'',
     ''InvalidBucketError'', ''InvalidEndpointError'',
     ''PartMetadata'', ''parts_manager'', ''get_target_url'', ''is_valid_endpoint'',
     ''is_valid_bucket_name'', ''is_non_empty_string'', ''encode_object_name'',
     ''get_sha256'', ''get_md5'', ''encode_to_base64'', ''encode_to_hex'',
     ''calculate_part_size'']"

definition load_global :: "string \<Rightarrow> error + unit" where
  "load_global name = (if name \<in> set module_globals then Inr () else Inl NameError)"

section \<open>\<^verbatim>\<open>parts_manager\<close>\<close>

text \<open>
  \<^verbatim>\<open>class PartMetadata\<close> (lines 28-41): the four fields, set by the constructor. The
  field \<open>pm_data\<close> is the content written to the temporary file.
\<close>

record PartMetadata =
  pm_data :: bytes
  pm_md5digest :: bytes
  pm_sha256digest :: bytes
  pm_size :: int

text \<open>
  The input reader is the list of bytes it has not yet delivered. \<^verbatim>\<open>data.read(1024)\<close>
  returns the next bytes, at most 1024 of them, and advances the reader; at the end of
  the input it returns the empty string.
\<close>

type_synonym reader = bytes

definition read :: "nat \<Rightarrow> reader \<Rightarrow> bytes \<times> reader" where
  "read n d = (take n d, drop n d)"

text \<open>
  The loop of lines 55-62. A \<^verbatim>\<open>hashlib\<close> object is modelled by the bytes it has been
  fed (\<^verbatim>\<open>update\<close> appends); the temporary file by the bytes written to it. The loop
  returns the file content, the two hasher states, \<^verbatim>\<open>total_read\<close> and the reader.
\<close>

function parts_loop ::
  "reader \<Rightarrow> int \<Rightarrow> bytes \<Rightarrow> bytes \<Rightarrow> bytes \<Rightarrow> int \<Rightarrow> (bytes \<times> bytes \<times> bytes \<times> int) \<times> reader"
where
  "parts_loop d part_size tmpdata md5hasher sha256hasher total_read =
     (if total_read < part_size then
        (let current_data = fst (read 1024 d); d' = snd (read 1024 d) in
         if current_data = [] \<or> length current_data = 0
         then ((tmpdata, md5hasher, sha256hasher, total_read), d')
         else parts_loop d' part_size
                (tmpdata @ current_data)
                (md5hasher @ current_data)
                (sha256hasher @ current_data)
                (total_read + int (length current_data)))
      else ((tmpdata, md5hasher, sha256hasher, total_read), d))"
  by pat_completeness auto
termination
  by (relation "measure (\<lambda>(d, part_size, tmpdata, md5hasher, sha256hasher, total_read).
        nat (part_size - total_read))") auto

text \<open>
  \<^verbatim>\<open>parts_manager\<close> (lines 43-64). The digest functions of \<^verbatim>\<open>hashlib\<close> are parameters:
  \<open>md5 bs\<close> and \<open>sha256 bs\<close> are the digests of the byte string \<open>bs\<close>. The first
  statement of the body, line 51, evaluates the global name \<^verbatim>\<open>tempfile\<close>; the lookup
  comes before anything is read. The result pairs the outcome with the reader as the
  call leaves it.
\<close>

definition parts_manager ::
  "(bytes \<Rightarrow> bytes) \<Rightarrow> (bytes \<Rightarrow> bytes) \<Rightarrow> reader \<Rightarrow> int \<Rightarrow> (error + PartMetadata) \<times> reader"
where
  "parts_manager md5 sha256 d part_size =
     (case load_global ''tempfile'' of
        Inl e \<Rightarrow> (Inl e, d)
      | Inr _ \<Rightarrow>
          (case parts_loop d part_size [] [] [] 0 of
             ((tmpdata, md5hasher, sha256hasher, total_read), d') \<Rightarrow>
               (Inr \<lparr>pm_data = tmpdata, pm_md5digest = md5 md5hasher,
                      pm_sha256digest = sha256 sha256hasher, pm_size = total_read\<rparr>, d')))"

section \<open>Numbers and division\<close>

text \<open>The interpreter that runs the module.\<close>

datatype python = Python2 | Python3

text \<open>
  A number is an \<^verbatim>\<open>int\<close> or a \<^verbatim>\<open>float\<close>. The float \<open>PyFloat m e\<close> is the binary
  floating-point number \<open>m * 2 ^ e\<close>: a double has a mantissa \<open>m\<close> of at most 53 bits,
  of exactly 53 bits when \<open>- 1074 < e\<close>, and \<open>e\<close> is between \<open>- 1074\<close> and \<open>971\<close>. Zero is
  \<open>PyFloat 0 0\<close>.
\<close>

datatype number = PyInt int | PyFloat int int

text \<open>\<^verbatim>\<open>n.bit_length()\<close> of a natural number.\<close>

fun bit_length :: "nat \<Rightarrow> nat" where
  "bit_length n = (if n = 0 then 0 else Suc (bit_length (n div 2)))"

text \<open>\<open>scale2 m e\<close> is \<open>m * 2 ^ e\<close> for \<open>0 \<le> e\<close>, and \<open>m\<close> for a negative \<open>e\<close>.\<close>

definition scale2 :: "int \<Rightarrow> int \<Rightarrow> int" where
  "scale2 m e = m * 2 ^ nat e"

text \<open>The integer nearest to \<open>n / d\<close> for \<open>0 < d\<close>, the even one of two that are equally near.\<close>

definition round_half_even :: "int \<Rightarrow> int \<Rightarrow> int" where
  "round_half_even n d =
     (let m = n div d; r = n mod d
      in if d < 2 * r \<or> (2 * r = d \<and> odd m) then m + 1 else m)"

text \<open>For positive \<open>a\<close> and \<open>b\<close>, the exponent \<open>e\<close> with \<open>2 ^ e \<le> a / b < 2 ^ (e + 1)\<close>.\<close>

definition binade :: "int \<Rightarrow> int \<Rightarrow> int" where
  "binade a b =
     (let k = int (bit_length (nat a)) - int (bit_length (nat b))
      in if scale2 b k \<le> scale2 a (- k) then k else k - 1)"

text \<open>
  \<^verbatim>\<open>a / b\<close> on two \<^verbatim>\<open>int\<close>s in Python 3: the double nearest to the quotient, ties to the
  even mantissa, and \<^verbatim>\<open>OverflowError\<close> when that is not below \<open>2 ^ 1024\<close>.
\<close>

definition true_divide :: "int \<Rightarrow> int \<Rightarrow> error + number" where
  "true_divide a b =
     (if b = 0 then Inl ZeroDivisionError
      else if a = 0 then Inr (PyFloat 0 0)
      else (let e = max (binade \<bar>a\<bar> \<bar>b\<bar>) (- 1022);
                m = round_half_even (scale2 \<bar>a\<bar> (52 - e)) (scale2 \<bar>b\<bar> (e - 52));
                m' = (if m = 2 ^ 53 then 2 ^ 52 else m);
                e' = (if m = 2 ^ 53 then e - 51 else e - 52)
            in if 1024 - 53 < e' then Inl OverflowError
               else Inr (PyFloat (sgn a * sgn b * m') e')))"

text \<open>
  \<^verbatim>\<open>a / b\<close> on two \<^verbatim>\<open>int\<close>s: floor division on Python 2, true division on Python 3.
\<close>

definition divide :: "python \<Rightarrow> int \<Rightarrow> int \<Rightarrow> error + number" where
  "divide py a b =
     (case py of
        Python2 \<Rightarrow> if b = 0 then Inl ZeroDivisionError else Inr (PyInt (a div b))
      | Python3 \<Rightarrow> true_divide a b)"

text \<open>\<^verbatim>\<open>x < y\<close> on numbers: Python compares an \<^verbatim>\<open>int\<close> and a \<^verbatim>\<open>float\<close> by their exact values.\<close>

definition less_number :: "number \<Rightarrow> number \<Rightarrow> bool" where
  "less_number x y =
     (case (x, y) of
        (PyInt i, PyInt j) \<Rightarrow> i < j
      | (PyInt i, PyFloat m e) \<Rightarrow> scale2 i (- e) < scale2 m e
      | (PyFloat m e, PyInt j) \<Rightarrow> scale2 m e < scale2 j (- e)
      | (PyFloat m e, PyFloat n f) \<Rightarrow> scale2 m (e - f) < scale2 n (f - e))"

text \<open>\<^verbatim>\<open>max(a, b)\<close>: the first argument unless the second is greater.\<close>

definition py_max :: "number \<Rightarrow> number \<Rightarrow> number" where
  "py_max a b = (if less_number a b then b else a)"

section \<open>\<^verbatim>\<open>calculate_part_size\<close>\<close>

text \<open>
  Lines 240-254, run by the interpreter \<open>py\<close> on an \<^verbatim>\<open>int\<close> length. Line 251 divides two
  \<^verbatim>\<open>int\<close>s with \<^verbatim>\<open>/\<close>.
\<close>

definition calculate_part_size :: "python \<Rightarrow> int \<Rightarrow> error + number" where
  "calculate_part_size py len =
     (let minimum_part_size = PyInt (1024 * 1024 * 5);
          maximum_part_size = PyInt (1024 * 1024 * 1024 * 5)
      in if len = - 1 then Inr maximum_part_size
         else (case divide py len 9999 of
                 Inl e \<Rightarrow> Inl e
               | Inr proposed_part_size \<Rightarrow>
                   if less_number maximum_part_size proposed_part_size
                   then Inr maximum_part_size
                   else Inr (py_max minimum_part_size proposed_part_size)))"

section \<open>\<^verbatim>\<open>is_non_empty_string\<close> and \<^verbatim>\<open>encode_object_name\<close>\<close>

text \<open>
  Lines 172-194. The argument is a string, so the \<^verbatim>\<open>isinstance\<close> test of line 179
  passes and \<^verbatim>\<open>TypeError\<close> is not raised.
\<close>

definition is_non_empty_string :: "string \<Rightarrow> error + bool" where
  "is_non_empty_string input_string =
     (if strip input_string = [] then Inl ValueError else Inr True)"

definition encode_object_name :: "string \<Rightarrow> error + string" where
  "encode_object_name object_name =
     (case is_non_empty_string object_name of
        Inl e \<Rightarrow> Inl e
      | Inr _ \<Rightarrow> Inr (urlencode object_name))"

section \<open>\<^verbatim>\<open>get_target_url\<close>\<close>

text \<open>
  Lines 66-110. \<^verbatim>\<open>bucket_name\<close> and \<^verbatim>\<open>object_name\<close> are a string or \<^verbatim>\<open>None\<close>. The
  \<^verbatim>\<open>query\<close> is \<^verbatim>\<open>None\<close> or a \<^verbatim>\<open>dict\<close> from a string to a string or \<^verbatim>\<open>None\<close>: the list
  of its items in insertion order, with pairwise different keys. \<^verbatim>\<open>sorted\<close> (line 95)
  compares the items as tuples, first by key; \<^verbatim>\<open>str\<close> of a string value is the value.
\<close>

type_synonym query_dict = "(string \<times> string option) list"

definition single_component :: "string \<times> string option \<Rightarrow> string" where
  "single_component item =
     (case snd item of
        None \<Rightarrow> fst item
      | Some v \<Rightarrow> fst item @ ''='' @ replace_slash (urlencode v))"

definition get_target_url ::
  "string \<Rightarrow> string option \<Rightarrow> string option \<Rightarrow> query_dict option \<Rightarrow> error + string"
where
  "get_target_url endpoint bucket_name object_name query =
     (let parsed_url = urlsplit endpoint;
          url =
            (case bucket_name of
               None \<Rightarrow> scheme parsed_url @ ''://'' @ netloc parsed_url
             | Some bn \<Rightarrow>
                 if str_contains ''amazonaws.com'' (netloc parsed_url)
                 then scheme parsed_url @ ''://'' @ bn @ ''.'' @ netloc parsed_url
                 else scheme parsed_url @ ''://'' @ netloc parsed_url @ ''/'' @ bn);
          url_components = [url, ''/'']
      in case (case object_name of
                 None \<Rightarrow> Inr []
               | Some on \<Rightarrow>
                   (case encode_object_name on of Inl e \<Rightarrow> Inl e | Inr on' \<Rightarrow> Inr [on'])) of
           Inl e \<Rightarrow> Inl e
         | Inr object_components \<Rightarrow>
             Inr (concat
                   (url_components @ object_components @
                    (case query of
                       None \<Rightarrow> []
                     | Some q \<Rightarrow>
                         (let ordered_query = sort q;
                              query_components = map single_component ordered_query;
                              query_string = join ''&'' query_components
                          in if query_string \<noteq> [] then [''?'', query_string] else [])))))"

section \<open>\<^verbatim>\<open>is_valid_endpoint\<close>\<close>

text \<open>
  The pattern of lines 133-135, compiled with \<^verbatim>\<open>re.IGNORECASE\<close>:
  \<^verbatim>\<open>^((?!-)[A-Z\d-]{1,63}(?<!-)\.)*((?!-)[A-Z\d-]{1,63}(?<!-))$\<close>.
\<close>

definition allowed_label :: regex where
  "allowed_label =
     Seq (NotAhead (Lit CHR ''-''))
       (Seq (Rep 1 (Some 63)
               (Cls [(CHR ''A'', CHR ''Z''), (CHR ''0'', CHR ''9''), (CHR ''-'', CHR ''-'')]))
          (NotBehind CHR ''-''))"

definition allowed :: regex where
  "allowed =
     Seq Bol
       (Seq (Rep 0 None (Seq allowed_label (Lit CHR ''.'')))
          (Seq allowed_label Eol))"


section \<open>\<^verbatim>\<open>is_valid_bucket_name\<close>\<close>

text \<open>The pattern of line 158: \<^verbatim>\<open>^[a-zA-Z][a-zA-Z0-9\-]+[a-zA-Z0-9]$\<close>.\<close>

definition validbucket :: regex where
  "validbucket =
     Seq Bol
       (Seq (Cls [(CHR ''a'', CHR ''z''), (CHR ''A'', CHR ''Z'')])
          (Seq (Rep 1 None
                  (Cls [(CHR ''a'', CHR ''z''), (CHR ''A'', CHR ''Z''), (CHR ''0'', CHR ''9''),
                        (CHR ''-'', CHR ''-'')]))
             (Seq (Cls [(CHR ''a'', CHR ''z''), (CHR ''A'', CHR ''Z''), (CHR ''0'', CHR ''9'')])
                Eol)))"

text \<open>Lines 144-170.\<close>

definition is_valid_bucket_name :: "string \<Rightarrow> error + bool" where
  "is_valid_bucket_name bucket_name =
     (if CHR ''.'' \<in> set bucket_name then Inl InvalidBucketError
      else if length bucket_name < 3 \<or> length bucket_name > 63 then Inl InvalidBucketError
      else (case re_match False validbucket bucket_name of
              None \<Rightarrow> Inl InvalidBucketError
            | Some match_end \<Rightarrow>
                if match_end \<noteq> length bucket_name then Inl InvalidBucketError
                else Inr True))"

section \<open>The patterns as the specification words them\<close>

text \<open>
  A bucket name matches the label pattern in full when it is a letter, then one or
  more letters, digits or hyphens, then a letter or digit.
\<close>

definition bucket_pattern :: "string \<Rightarrow> bool" where
  "bucket_pattern s =
     (case s of
        [] \<Rightarrow> False
      | c # t \<Rightarrow>
          is_letter c \<and> 2 \<le> length t
          \<and> list_all (\<lambda>x. is_letter x \<or> is_digit x \<or> x = CHR ''-'') (butlast t)
          \<and> (is_letter (last t) \<or> is_digit (last t)))"




text \<open>Bounds of a repetition, for stating what a repetition matches.\<close>

fun within :: "nat option \<Rightarrow> nat \<Rightarrow> bool" where
  "within None k = True"
| "within (Some n) k = (k \<le> n)"


section \<open>Properties of \<^verbatim>\<open>calculate_part_size\<close>\<close>

declare bit_length.simps [simp del]

lemma bit_length_bounds:
  "0 < n \<Longrightarrow> 2 ^ (bit_length n - 1) \<le> n \<and> n < 2 ^ bit_length n"
proof (induction n rule: bit_length.induct)
  case (1 n)
  show ?case
  proof (cases "n div 2 = 0")
    case True
    with "1.prems" have "n = 1" by (cases n) auto
    then show ?thesis by (simp add: bit_length.simps)
  next
    case False
    then have pos: "0 < n div 2" by simp
    from "1.prems" have n0: "n \<noteq> 0" by simp
    have ih: "2 ^ (bit_length (n div 2) - 1) \<le> n div 2 \<and> n div 2 < 2 ^ bit_length (n div 2)"
      using "1.IH" [OF n0 pos] .
    have bl: "bit_length n = Suc (bit_length (n div 2))"
      using n0 by (subst bit_length.simps) simp
    have b1: "0 < bit_length (n div 2)"
      using pos by (subst bit_length.simps) simp
    then obtain j where j: "bit_length (n div 2) = Suc j"
      by (cases "bit_length (n div 2)") auto
    from ih j have "2 ^ j \<le> n div 2" "n div 2 < 2 ^ Suc j" by simp_all
    then have "2 ^ Suc j \<le> n" "n < 2 ^ Suc (Suc j)" by auto
    with bl j show ?thesis by simp
  qed
qed

lemma bit_length_unique:
  assumes "2 ^ k \<le> n" and "n < 2 ^ Suc k"
  shows "bit_length n = Suc k"
proof -
  from assms(1) have pos: "0 < n"
    by (metis gr0I not_less zero_less_numeral zero_less_power leD)
  from bit_length_bounds [OF pos]
  have b: "2 ^ (bit_length n - 1) \<le> n" "n < 2 ^ bit_length n" by simp_all
  from assms(1) b(2) have "(2::nat) ^ k < 2 ^ bit_length n" by (rule le_less_trans)
  then have 1: "k < bit_length n" by (simp add: power_strict_increasing_iff)
  from b(1) assms(2) have "(2::nat) ^ (bit_length n - 1) < 2 ^ Suc k" by (rule le_less_trans)
  then have 2: "bit_length n - 1 < Suc k"
    by (simp only: power_strict_increasing_iff one_less_numeral_iff num.simps semiring_norm)
  from 1 2 show ?thesis by simp
qed

lemma bit_length_9999: "bit_length 9999 = 14"
proof -
  have "bit_length 9999 = Suc 13" by (rule bit_length_unique) simp_all
  then show ?thesis by simp
qed

text \<open>
  On either interpreter the length \<open>- 1\<close> gives 5 GiB and the length 0 gives 5 MiB, both
  as \<^verbatim>\<open>int\<close>s.
\<close>

lemma calculate_part_size_fixed:
  "calculate_part_size py (- 1) = Inr (PyInt (5 * 1024 * 1024 * 1024))
   \<and> calculate_part_size py 0 = Inr (PyInt (5 * 1024 * 1024))"
  by (cases py)
     (simp_all add: calculate_part_size_def divide_def true_divide_def less_number_def
        py_max_def scale2_def Let_def)

text \<open>
  On Python 2 line 251 is floor division: a length whose 9999th part exceeds 5 GiB
  gives exactly 5 GiB, and every other non-negative length gives the larger of 5 MiB
  and its 9999th part.
\<close>

lemma calculate_part_size_python2:
  "(n div 9999 > 5 * 1024 * 1024 * 1024
      \<longrightarrow> calculate_part_size Python2 n = Inr (PyInt (5 * 1024 * 1024 * 1024)))
   \<and> (0 \<le> n \<and> \<not> n div 9999 > 5 * 1024 * 1024 * 1024
      \<longrightarrow> calculate_part_size Python2 n = Inr (PyInt (max (5 * 1024 * 1024) (n div 9999))))"
  by (simp add: calculate_part_size_def divide_def less_number_def py_max_def Let_def)

text \<open>
  C7, on Python 3 for the lengths 99990000001 and \<open>10 ^ 400\<close>. The specification has
  the first give the larger of 5 MiB and the 9999th part of the length, a part size of
  10000000 bytes, and the second, whose 9999th part exceeds 5 GiB, give exactly 5 GiB.
  On Python 3 line 251 is true division: the first call returns the float
  10000000.00010001, which is \<open>5368709120053692 * 2 ^ - 29\<close>, and the second raises
  \<^verbatim>\<open>OverflowError\<close>.
\<close>

theorem calculate_part_size_python3:
  "calculate_part_size Python3 99990000001 = Inr (PyFloat 5368709120053692 (- 29))
   \<and> calculate_part_size Python3 (10 ^ 400) = Inl OverflowError"
proof -
  have "bit_length 99990000001 = Suc 36" by (rule bit_length_unique) simp_all
  then have "binade \<bar>99990000001\<bar> \<bar>9999\<bar> = 23"
    by (simp add: binade_def bit_length_9999 scale2_def)
  then have 1: "calculate_part_size Python3 99990000001 = Inr (PyFloat 5368709120053692 (- 29))"
    by (simp add: calculate_part_size_def divide_def true_divide_def round_half_even_def
          less_number_def py_max_def scale2_def Let_def)
  have a: "nat \<bar>10 ^ 400 :: int\<bar> = 10 ^ 400" by simp
  have b: "nat \<bar>9999 :: int\<bar> = 9999" by simp
  have "bit_length (10 ^ 400) = Suc 1328" by (rule bit_length_unique) simp_all
  then have "binade \<bar>10 ^ 400\<bar> \<bar>9999\<bar> = 1315"
    unfolding binade_def a b bit_length_9999 by (simp add: scale2_def)
  then have 2: "calculate_part_size Python3 (10 ^ 400) = Inl OverflowError"
    by (simp add: calculate_part_size_def divide_def true_divide_def Let_def)
  from 1 2 show ?thesis by simp
qed

section \<open>Properties of \<^verbatim>\<open>parts_manager\<close>\<close>

text \<open>
  C10. Whatever the reader and the part size, the call raises \<^verbatim>\<open>NameError\<close> and
  leaves the reader where it was: the name \<^verbatim>\<open>tempfile\<close> is not bound by the module,
  so line 51 fails before the first \<^verbatim>\<open>read\<close>, and no \<open>PartMetadata\<close> is returned.
\<close>

theorem parts_manager_raises_NameError:
  "parts_manager md5 sha256 d part_size = (Inl NameError, d)"
  by (simp add: parts_manager_def load_global_def module_globals_def)

section \<open>What the matcher gives on a repeated character class\<close>

declare rmatch.simps(8) [simp del]

lemma set_rmatch_Seq:
  "set (rmatch ic (Seq p q) k) = (\<Union>k' \<in> set (rmatch ic p k). set (rmatch ic q k'))"
  by (cases k) simp

lemma set_rmatch_Cls:
  "set (rmatch ic (Cls rs) (b, r)) = {(b @ [x], r') | x r'. r = x # r' \<and> in_class ic rs x}"
  by (auto split: list.splits)

lemma rmatch_Rep_Nil:
  "within n m \<Longrightarrow> set (rmatch ic (Rep m n (Cls rs)) (b, [])) = (if m = 0 then {(b, [])} else {})"
  by (subst rmatch.simps(8)) (cases n; auto)

lemma rmatch_Rep_Cons:
  "set (rmatch ic (Rep m n (Cls rs)) (b, x # r)) =
     (if n = Some 0 then {(b, x # r)}
      else (if in_class ic rs x
            then set (rmatch ic (Rep (m - 1) (map_option (\<lambda>j. j - 1) n) (Cls rs)) (b @ [x], r))
            else {}) \<union> (if m = 0 then {(b, x # r)} else {}))"
  by (subst rmatch.simps(8)) simp

lemma set_rmatch_Rep_Cls:
  "within n m \<Longrightarrow>
   set (rmatch ic (Rep m n (Cls rs)) (b, r)) =
     {(b @ w, r') | w r'. r = w @ r' \<and> m \<le> length w \<and> within n (length w)
                          \<and> list_all (in_class ic rs) w}"
proof (induction r arbitrary: b m n)
  case Nil
  then show ?case by (auto simp: rmatch_Rep_Nil)
next
  case (Cons x r)
  show ?case
  proof (cases "n = Some 0")
    case True
    with Cons.prems show ?thesis by (auto simp: rmatch_Rep_Cons)
  next
    case False
    define m' where "m' = m - 1"
    define n' where "n' = map_option (\<lambda>j. j - 1) n"
    from Cons.prems False have w': "within n' m'"
      by (cases n) (auto simp: m'_def n'_def)
    have bound: "\<And>k. within n' k \<longleftrightarrow> within n (Suc k)"
      using False by (cases n) (auto simp: n'_def)
    have low: "\<And>k. m' \<le> k \<longleftrightarrow> m \<le> Suc k" by (auto simp: m'_def)
    have "set (rmatch ic (Rep m n (Cls rs)) (b, x # r)) =
            (if in_class ic rs x then set (rmatch ic (Rep m' n' (Cls rs)) (b @ [x], r)) else {})
            \<union> (if m = 0 then {(b, x # r)} else {})"
      unfolding m'_def n'_def using False by (simp only: rmatch_Rep_Cons if_False)
    also have "\<dots> =
            (if in_class ic rs x
             then {((b @ [x]) @ w, r') | w r'. r = w @ r' \<and> m \<le> Suc (length w)
                          \<and> within n (Suc (length w)) \<and> list_all (in_class ic rs) w}
             else {}) \<union> (if m = 0 then {(b, x # r)} else {})"
      by (simp only: Cons.IH [OF w'] bound low)
    also have "\<dots> = {(b @ w, r') | w r'. x # r = w @ r' \<and> m \<le> length w \<and> within n (length w)
                          \<and> list_all (in_class ic rs) w}" (is "?L = ?R")
    proof (intro set_eqI iffI)
      fix k assume "k \<in> ?L"
      then consider
          (more) w r' where "in_class ic rs x" "k = ((b @ [x]) @ w, r')" "r = w @ r'"
            "m \<le> Suc (length w)" "within n (Suc (length w))" "list_all (in_class ic rs) w"
        | (stop) "m = 0" "k = (b, x # r)"
        by (auto split: if_splits)
      then show "k \<in> ?R"
      proof cases
        case more
        then have "k = (b @ (x # w), r') \<and> x # r = (x # w) @ r' \<and> m \<le> length (x # w)
                \<and> within n (length (x # w)) \<and> list_all (in_class ic rs) (x # w)"
          by simp
        then show ?thesis by blast
      next
        case stop
        then have "k = (b @ [], x # r) \<and> x # r = [] @ (x # r) \<and> m \<le> length ([]::string)
                \<and> within n (length ([]::string)) \<and> list_all (in_class ic rs) []"
          by (cases n) auto
        then show ?thesis by blast
      qed
    next
      fix k assume "k \<in> ?R"
      then obtain w r' where k: "k = (b @ w, r')" "x # r = w @ r'" "m \<le> length w"
         "within n (length w)" "list_all (in_class ic rs) w"
        by blast
      show "k \<in> ?L"
      proof (cases w)
        case Nil
        with k show ?thesis by auto
      next
        case (Cons y w')
        with k show ?thesis by auto
      qed
    qed
    finally show ?thesis .
  qed
qed

section \<open>Properties of \<^verbatim>\<open>is_valid_bucket_name\<close>\<close>

lemma class_letter:
  "in_class False [(CHR ''a'', CHR ''z''), (CHR ''A'', CHR ''Z'')] c = is_letter c"
  by (auto simp: in_class_def is_letter_def)

lemma class_alnum:
  "in_class False [(CHR ''a'', CHR ''z''), (CHR ''A'', CHR ''Z''), (CHR ''0'', CHR ''9'')] c
     = (is_letter c \<or> is_digit c)"
  by (auto simp: in_class_def is_letter_def is_digit_def)

lemma class_alnum_hyphen:
  "in_class False [(CHR ''a'', CHR ''z''), (CHR ''A'', CHR ''Z''), (CHR ''0'', CHR ''9''),
                   (CHR ''-'', CHR ''-'')]
     = (\<lambda>c. is_letter c \<or> is_digit c \<or> c = CHR ''-'')"
  by (rule ext) (auto simp: in_class_def is_letter_def is_digit_def)

lemma bucket_pattern_iff:
  "bucket_pattern s \<longleftrightarrow>
     (\<exists>c mid d. s = c # mid @ [d] \<and> is_letter c \<and> mid \<noteq> []
        \<and> list_all (\<lambda>x. is_letter x \<or> is_digit x \<or> x = CHR ''-'') mid
        \<and> (is_letter d \<or> is_digit d))"
proof
  assume "bucket_pattern s"
  then obtain c t where s: "s = c # t" "is_letter c" "2 \<le> length t"
      "list_all (\<lambda>x. is_letter x \<or> is_digit x \<or> x = CHR ''-'') (butlast t)"
      "is_letter (last t) \<or> is_digit (last t)"
    by (auto simp: bucket_pattern_def split: list.splits)
  from s(3) have t: "t = butlast t @ [last t]" "butlast t \<noteq> []"
    by (cases t rule: rev_cases; auto)+
  with s show "\<exists>c mid d. s = c # mid @ [d] \<and> is_letter c \<and> mid \<noteq> []
        \<and> list_all (\<lambda>x. is_letter x \<or> is_digit x \<or> x = CHR ''-'') mid
        \<and> (is_letter d \<or> is_digit d)"
    by metis
next
  assume "\<exists>c mid d. s = c # mid @ [d] \<and> is_letter c \<and> mid \<noteq> []
        \<and> list_all (\<lambda>x. is_letter x \<or> is_digit x \<or> x = CHR ''-'') mid
        \<and> (is_letter d \<or> is_digit d)"
  then obtain c mid d where "s = c # mid @ [d]" "is_letter c" "mid \<noteq> []"
        "list_all (\<lambda>x. is_letter x \<or> is_digit x \<or> x = CHR ''-'') mid"
        "is_letter d \<or> is_digit d"
    by blast
  then show "bucket_pattern s"
    by (cases mid) (auto simp: bucket_pattern_def)
qed

lemma newline_not_alnum: "\<not> is_letter (CHR 0x0A)" "\<not> is_digit (CHR 0x0A)"
  by (simp_all add: is_letter_def is_digit_def)

lemma validbucket_cursors:
  "(b, r') \<in> set (rmatch False validbucket ([], s)) \<longleftrightarrow>
     s = b @ r' \<and> bucket_pattern b \<and> (r' = [] \<or> r' = [CHR 0x0A])"
  unfolding validbucket_def bucket_pattern_iff
  by (simp add: set_rmatch_Seq set_rmatch_Cls set_rmatch_Rep_Cls
        class_letter class_alnum class_alnum_hyphen)
     (auto simp: Suc_le_eq)

lemma bucket_pattern_last: "bucket_pattern s \<Longrightarrow> is_letter (last s) \<or> is_digit (last s)"
  by (auto simp: bucket_pattern_iff)

lemma re_match_validbucket:
  "re_match False validbucket s = Some (length s) \<longleftrightarrow> bucket_pattern s"
proof (cases "rmatch False validbucket ([], s)")
  case Nil
  then have "\<not> bucket_pattern s"
    using validbucket_cursors [of s "[]" s] by auto
  with Nil show ?thesis by (simp add: re_match_def)
next
  case (Cons k ks)
  obtain b r' where k: "k = (b, r')" by (cases k)
  with Cons have "(b, r') \<in> set (rmatch False validbucket ([], s))" by simp
  then have br: "s = b @ r'" "bucket_pattern b" "r' = [] \<or> r' = [CHR 0x0A]"
    by (simp_all add: validbucket_cursors)
  have m: "re_match False validbucket s = Some (length b)"
    using Cons k by (simp add: re_match_def)
  show ?thesis
  proof (cases "r' = []")
    case True
    with br m show ?thesis by simp
  next
    case False
    with br have s: "s = b @ [CHR 0x0A]" by auto
    then have "\<not> bucket_pattern s"
      using bucket_pattern_last [of s] newline_not_alnum by auto
    with m s show ?thesis by simp
  qed
qed

text \<open>
  C8. For every bucket name, \<open>is_valid_bucket_name\<close> raises \<^verbatim>\<open>InvalidBucketError\<close>
  exactly when the name contains a dot, or its length is below 3 or above 63, or it
  does not match the pattern \<^verbatim>\<open>^[A-Za-z][A-Za-z0-9-]+[A-Za-z0-9]$\<close> in full; otherwise
  it returns \<^verbatim>\<open>True\<close>.
\<close>

theorem is_valid_bucket_name_iff:
  "is_valid_bucket_name s =
     (if CHR ''.'' \<in> set s \<or> length s < 3 \<or> 63 < length s \<or> \<not> bucket_pattern s
      then Inl InvalidBucketError else Inr True)"
  using re_match_validbucket [of s]
  by (auto simp: is_valid_bucket_name_def split: option.splits)

theorem is_valid_bucket_name_iff_witness:
  "is_valid_bucket_name ''my-bucket-01'' = Inr True
   \<and> is_valid_bucket_name ''my.bucket'' = Inl InvalidBucketError
   \<and> is_valid_bucket_name ''ab'' = Inl InvalidBucketError
   \<and> is_valid_bucket_name ''1bucket'' = Inl InvalidBucketError
   \<and> is_valid_bucket_name (''bucket'' @ [CHR 0x0A]) = Inl InvalidBucketError"
  using is_valid_bucket_name_iff [of "''my-bucket-01''"]
    is_valid_bucket_name_iff [of "''my.bucket''"]
    is_valid_bucket_name_iff [of "''ab''"]
    is_valid_bucket_name_iff [of "''1bucket''"]
    is_valid_bucket_name_iff [of "''bucket'' @ [CHR 0x0A]"]
  by (simp add: bucket_pattern_def is_letter_def is_digit_def)

section \<open>Properties of \<^verbatim>\<open>get_target_url\<close>\<close>

lemma str_contains_iff: "str_contains xs ys \<longleftrightarrow> (\<exists>ps ss. ys = ps @ xs @ ss)"
proof (induction ys)
  case Nil
  then show ?case by auto
next
  case (Cons y ys)
  show ?case
  proof
    assume "str_contains xs (y # ys)"
    then consider "take (length xs) (y # ys) = xs" | "str_contains xs ys" by auto
    then show "\<exists>ps ss. y # ys = ps @ xs @ ss"
    proof cases
      case 1
      then have "y # ys = [] @ xs @ drop (length xs) (y # ys)"
        by (metis append_Nil append_take_drop_id)
      then show ?thesis by blast
    next
      case 2
      with Cons.IH obtain ps ss where "ys = ps @ xs @ ss" by blast
      then have "y # ys = (y # ps) @ xs @ ss" by simp
      then show ?thesis by blast
    qed
  next
    assume "\<exists>ps ss. y # ys = ps @ xs @ ss"
    then obtain ps ss where e: "y # ys = ps @ xs @ ss" by blast
    show "str_contains xs (y # ys)"
    proof (cases ps)
      case Nil
      with e have "take (length xs) (y # ys) = xs" by simp
      then show ?thesis by simp
    next
      case (Cons p ps')
      with e have "ys = ps' @ xs @ ss" by simp
      with Cons.IH show ?thesis by auto
    qed
  qed
qed

lemma sort_items_unique:
  fixes q1 q2 :: query_dict
  assumes "distinct (map fst q1)" "distinct (map fst q2)" "set q1 = set q2"
  shows "sort q1 = sort q2"
proof -
  from assms have "distinct q1" "distinct q2" by (auto simp: distinct_map)
  then have "distinct (sort q1)" and "distinct (sort q2)" by simp_all
  moreover from assms have "set (sort q1) = set (sort q2)" by simp
  ultimately show ?thesis by (intro sorted_distinct_set_unique) simp_all
qed

lemma sorted_map_fst:
  fixes xs :: "('a::linorder \<times> 'b::linorder) list"
  shows "sorted xs \<Longrightarrow> sorted (map fst xs)"
  by (induction xs) (auto simp: less_eq_prod_def)


lemma get_target_url_no_query:
  "get_target_url e bn on (Some q) =
     map_sum id
       (\<lambda>u. u @ (let qs = join ''&'' (map single_component (sort q))
                  in if qs = [] then [] else ''?'' @ qs))
       (get_target_url e bn on None)"
  by (simp add: get_target_url_def Let_def split: option.splits sum.splits)

text \<open>
  C4. The URL does not depend on the order in which the entries of the query were
  inserted: two dicts with the same entries give the same result, for every endpoint,
  bucket and object name. The query string is rendered from the entries arranged by
  ascending key: the result is the result without a query, followed (when the query
  string is not empty) by \<^verbatim>\<open>?\<close> and the rendered entries joined by \<^verbatim>\<open>&\<close>.
\<close>

theorem get_target_url_query_order:
  assumes "distinct (map fst q1)" and "distinct (map fst q2)" and "set q1 = set q2"
  shows "get_target_url e bn on (Some q1) = get_target_url e bn on (Some q2)
     \<and> sorted (map fst (sort q1)) \<and> set (sort q1) = set q1
     \<and> get_target_url e bn on (Some q1) =
         map_sum id
           (\<lambda>u. u @ (let qs = join ''&'' (map single_component (sort q1))
                      in if qs = [] then [] else ''?'' @ qs))
           (get_target_url e bn on None)"
proof -
  have "sort q1 = sort q2" using assms by (rule sort_items_unique)
  then have "get_target_url e bn on (Some q1) = get_target_url e bn on (Some q2)"
    by (simp only: get_target_url_no_query)
  moreover have "sorted (map fst (sort q1))" by (rule sorted_map_fst) simp
  ultimately show ?thesis
    by (simp add: get_target_url_no_query)
qed

theorem get_target_url_query_order_witness:
  "get_target_url ''https://s3.amazonaws.com'' (Some ''mybucket'') (Some ''obj'')
       (Some [(''uploadId'', Some ''123''), (''partNumber'', Some ''1'')])
     = get_target_url ''https://s3.amazonaws.com'' (Some ''mybucket'') (Some ''obj'')
         (Some [(''partNumber'', Some ''1''), (''uploadId'', Some ''123'')])
   \<and> get_target_url ''https://s3.amazonaws.com'' (Some ''mybucket'') (Some ''obj'')
       (Some [(''uploadId'', Some ''123''), (''partNumber'', Some ''1'')])
     = Inr ''https://mybucket.s3.amazonaws.com/obj?partNumber=1&uploadId=123''"
proof -
  have d1: "distinct (map fst [(''uploadId'', Some ''123''), (''partNumber'', Some ''1'')])"
    by simp
  have d2: "distinct (map fst [(''partNumber'', Some ''1''), (''uploadId'', Some ''123'')])"
    by simp
  have s: "set [(''uploadId'', Some ''123''), (''partNumber'', Some ''1'')]
         = set [(''partNumber'', Some ''1''), (''uploadId'', Some ''123'')]"
    by auto
  have v: "get_target_url ''https://s3.amazonaws.com'' (Some ''mybucket'') (Some ''obj'')
       (Some [(''partNumber'', Some ''1''), (''uploadId'', Some ''123'')])
     = Inr ''https://mybucket.s3.amazonaws.com/obj?partNumber=1&uploadId=123''"
    by code_simp
  from get_target_url_query_order [OF d1 d2 s, of "''https://s3.amazonaws.com''"
      "Some ''mybucket''" "Some ''obj''"] v
  show ?thesis by simp
qed

text \<open>
  C5. Without a bucket name the URL is \<^verbatim>\<open>scheme://netloc/\<close>. With a bucket name it
  starts with \<^verbatim>\<open>scheme://bucket.netloc/\<close> when \<^verbatim>\<open>amazonaws.com\<close> occurs anywhere in the
  network location of the endpoint, and with \<^verbatim>\<open>scheme://netloc/bucket/\<close> in every other
  case; whatever the object name and the query add comes after that.
\<close>

theorem get_target_url_style:
  "get_target_url e None None None
     = Inr (scheme (urlsplit e) @ ''://'' @ netloc (urlsplit e) @ ''/'')
   \<and> get_target_url e (Some b) None None
     = Inr (if (\<exists>ps ss. netloc (urlsplit e) = ps @ ''amazonaws.com'' @ ss)
            then scheme (urlsplit e) @ ''://'' @ b @ ''.'' @ netloc (urlsplit e) @ ''/''
            else scheme (urlsplit e) @ ''://'' @ netloc (urlsplit e) @ ''/'' @ b @ ''/'')
   \<and> (\<forall>u. get_target_url e bn on q = Inr u \<longrightarrow>
          (\<exists>base tail. get_target_url e bn None None = Inr base \<and> u = base @ tail))"
  unfolding str_contains_iff [symmetric]
  by (auto simp: get_target_url_def Let_def split: option.splits sum.splits)

theorem get_target_url_style_witness:
  "get_target_url ''https://minio.local:9000'' None None None = Inr ''https://minio.local:9000/''
   \<and> get_target_url ''https://s3.amazonaws.com'' (Some ''b'') None None
       = Inr ''https://b.s3.amazonaws.com/''
   \<and> get_target_url ''https://notamazonaws.com.attacker.example'' (Some ''b'') None None
       = Inr ''https://b.notamazonaws.com.attacker.example/''
   \<and> get_target_url ''https://minio.local:9000'' (Some ''b'') None None
       = Inr ''https://minio.local:9000/b/''
   \<and> (\<exists>base tail. get_target_url ''https://minio.local:9000'' (Some ''b'') None None = Inr base
         \<and> ''https://minio.local:9000/b/o?acl'' = base @ tail)"
proof -
  have u: "get_target_url ''https://minio.local:9000'' (Some ''b'') (Some ''o'') (Some [(''acl'', None)])
      = Inr ''https://minio.local:9000/b/o?acl''"
    by code_simp
  have n1: "netloc (urlsplit ''https://minio.local:9000'') = ''minio.local:9000''"
    and n2: "netloc (urlsplit ''https://s3.amazonaws.com'') = ''s3.amazonaws.com''"
    and n3: "netloc (urlsplit ''https://notamazonaws.com.attacker.example'')
              = ''notamazonaws.com.attacker.example''"
    and s1: "scheme (urlsplit ''https://minio.local:9000'') = ''https''"
    and s2: "scheme (urlsplit ''https://s3.amazonaws.com'') = ''https''"
    and s3: "scheme (urlsplit ''https://notamazonaws.com.attacker.example'') = ''https''"
    by code_simp+
  have c1: "\<not> str_contains ''amazonaws.com'' ''minio.local:9000''"
    and c2: "str_contains ''amazonaws.com'' ''s3.amazonaws.com''"
    and c3: "str_contains ''amazonaws.com'' ''notamazonaws.com.attacker.example''"
    by code_simp+
  from get_target_url_style [of "''https://minio.local:9000''" "''b''" "Some ''b''" "Some ''o''"
      "Some [(''acl'', None)]"]
    get_target_url_style [of "''https://s3.amazonaws.com''" "''b''" None None None]
    get_target_url_style [of "''https://notamazonaws.com.attacker.example''" "''b''" None None None]
    u c1 c2 c3
  show ?thesis
    unfolding str_contains_iff [symmetric] n1 n2 n3 s1 s2 s3 by simp
qed

text \<open>
  C6. The two examples of section 8 give the URLs that the section states:
  \<^verbatim>\<open>https://mybucket.s3.amazonaws.com/a%2Fb.txt?partNumber=1&uploadId=123\<close> for the
  first, in virtual-hosted style with the query in key order, and
  \<^verbatim>\<open>https://minio.local:9000/mybucket/?acl\<close> for the second, in path style with a
  query flag that has no value.
\<close>

theorem get_target_url_examples:
  "get_target_url ''https://s3.amazonaws.com'' (Some ''mybucket'') (Some ''a/b.txt'')
       (Some [(''uploadId'', Some ''123''), (''partNumber'', Some ''1'')])
     = Inr ''https://mybucket.s3.amazonaws.com/a%2Fb.txt?partNumber=1&uploadId=123''
   \<and> get_target_url ''https://minio.local:9000'' (Some ''mybucket'') None
       (Some [(''acl'', None)])
     = Inr ''https://minio.local:9000/mybucket/?acl''"
  by code_simp

section \<open>Properties of \<^verbatim>\<open>is_valid_endpoint\<close>\<close>

declare rmatch.simps [simp del]


































text \<open>
  The pattern alone lets a final line feed through: \<^verbatim>\<open>$\<close> holds before it, and line 136
  does not compare the end of the match with the length of the host name.
\<close>

lemma allowed_before_final_newline:
  "re_match True allowed (''minio.local'' @ [CHR 0x0A]) = Some 11"
  by code_simp






section \<open>The loop of \<^verbatim>\<open>parts_manager\<close>\<close>

text \<open>
  What lines 52-64 compute when they are reached: the bytes written to the temporary
  file and fed to both hashers are the bytes taken from the reader, \<^verbatim>\<open>total_read\<close>
  counts them, and a count below the part size means that the reader is at its end.
  The count is checked only before each read of 1024 bytes, so it can pass a part size
  that is not a multiple of 1024.
\<close>

lemma parts_loop_step:
  assumes "total_read < part_size" and "take 1024 d \<noteq> []"
  shows "parts_loop d part_size tmpdata md5hasher sha256hasher total_read =
     parts_loop (drop 1024 d) part_size (tmpdata @ take 1024 d) (md5hasher @ take 1024 d)
       (sha256hasher @ take 1024 d) (total_read + int (length (take 1024 d)))"
  using assms by (subst parts_loop.simps) (simp only: read_def Let_def fst_conv snd_conv if_True
      length_0_conv simp_thms if_False)

lemma parts_loop_stop:
  assumes "\<not> (total_read < part_size \<and> take 1024 d \<noteq> [])"
  shows "parts_loop d part_size tmpdata md5hasher sha256hasher total_read =
     ((tmpdata, md5hasher, sha256hasher, total_read), drop (if total_read < part_size then 1024 else 0) d)"
proof (cases "total_read < part_size")
  case True
  with assms have "take 1024 d = []" by blast
  with True show ?thesis
    by (subst parts_loop.simps) (simp only: read_def Let_def fst_conv snd_conv if_True simp_thms)
next
  case False
  then show ?thesis
    by (subst parts_loop.simps) (simp only: if_False drop_0)
qed


lemma parts_loop_reads:
  "parts_loop d part_size t m s n = ((t', m', s', n'), d') \<Longrightarrow>
   \<exists>w. d = w @ d' \<and> t' = t @ w \<and> m' = m @ w \<and> s' = s @ w \<and> n' = n + int (length w)"
proof (induction d part_size t m s n rule: parts_loop.induct)
  case (1 d part_size tmpdata md5hasher sha256hasher total_read)
  define c where "c = take 1024 d"
  define d1 where "d1 = drop 1024 d"
  have d: "d = c @ d1" by (simp add: c_def d1_def)
  show ?case
  proof (cases "total_read < part_size \<and> c \<noteq> []")
    case True
    then have rec: "parts_loop d1 part_size (tmpdata @ c) (md5hasher @ c) (sha256hasher @ c)
        (total_read + int (length c)) = ((t', m', s', n'), d')"
      using "1.prems" parts_loop_step [of total_read part_size d tmpdata md5hasher sha256hasher]
      unfolding c_def d1_def by simp
    have "\<exists>w. d1 = w @ d' \<and> t' = (tmpdata @ c) @ w \<and> m' = (md5hasher @ c) @ w
        \<and> s' = (sha256hasher @ c) @ w \<and> n' = (total_read + int (length c)) + int (length w)"
    proof (rule "1.IH" [of c d1])
      show "total_read < part_size" using True by blast
      show "c = fst (read 1024 d)" by (simp add: c_def read_def)
      show "d1 = snd (read 1024 d)" by (simp add: d1_def read_def)
      show "\<not> (c = [] \<or> length c = 0)" using True by simp
      show "parts_loop d1 part_size (tmpdata @ c) (md5hasher @ c) (sha256hasher @ c)
          (total_read + int (length c)) = ((t', m', s', n'), d')" by (rule rec)
    qed
    then obtain w where w: "d1 = w @ d'" "t' = (tmpdata @ c) @ w" "m' = (md5hasher @ c) @ w"
        "s' = (sha256hasher @ c) @ w" "n' = (total_read + int (length c)) + int (length w)"
      by blast
    have "d = (c @ w) @ d' \<and> t' = tmpdata @ (c @ w) \<and> m' = md5hasher @ (c @ w)
        \<and> s' = sha256hasher @ (c @ w) \<and> n' = total_read + int (length (c @ w))"
      using d w by simp
    then show ?thesis by blast
  next
    case False
    then have stop: "parts_loop d part_size tmpdata md5hasher sha256hasher total_read =
        ((tmpdata, md5hasher, sha256hasher, total_read),
         drop (if total_read < part_size then 1024 else 0) d)"
      unfolding c_def by (rule parts_loop_stop)
    have "drop (if total_read < part_size then 1024 else 0) d = d"
    proof (cases "total_read < part_size")
      case True
      with False have "c = []" by blast
      then have "d = []" unfolding c_def by simp
      then show ?thesis by simp
    next
      case False
      then show ?thesis by simp
    qed
    with stop "1.prems" have "t' = tmpdata \<and> m' = md5hasher \<and> s' = sha256hasher
        \<and> n' = total_read \<and> d' = d"
      by simp
    then have "d = [] @ d' \<and> t' = tmpdata @ [] \<and> m' = md5hasher @ [] \<and> s' = sha256hasher @ []
        \<and> n' = total_read + int (length ([]::string))"
      by simp
    then show ?thesis by blast
  qed
qed


lemma parts_loop_short_at_end:
  "parts_loop d part_size t m s n = ((t', m', s', n'), d') \<Longrightarrow> n' < part_size \<Longrightarrow> d' = []"
proof (induction d part_size t m s n rule: parts_loop.induct)
  case (1 d part_size tmpdata md5hasher sha256hasher total_read)
  define c where "c = take 1024 d"
  define d1 where "d1 = drop 1024 d"
  show ?case
  proof (cases "total_read < part_size \<and> c \<noteq> []")
    case True
    then have rec: "parts_loop d1 part_size (tmpdata @ c) (md5hasher @ c) (sha256hasher @ c)
        (total_read + int (length c)) = ((t', m', s', n'), d')"
      using "1.prems"(1) parts_loop_step [of total_read part_size d tmpdata md5hasher sha256hasher]
      unfolding c_def d1_def by simp
    show ?thesis
    proof (rule "1.IH" [of c d1])
      show "total_read < part_size" using True by blast
      show "c = fst (read 1024 d)" by (simp add: c_def read_def)
      show "d1 = snd (read 1024 d)" by (simp add: d1_def read_def)
      show "\<not> (c = [] \<or> length c = 0)" using True by simp
      show "parts_loop d1 part_size (tmpdata @ c) (md5hasher @ c) (sha256hasher @ c)
          (total_read + int (length c)) = ((t', m', s', n'), d')" by (rule rec)
      show "n' < part_size" by (rule "1.prems"(2))
    qed
  next
    case False
    then have stop: "parts_loop d part_size tmpdata md5hasher sha256hasher total_read =
        ((tmpdata, md5hasher, sha256hasher, total_read),
         drop (if total_read < part_size then 1024 else 0) d)"
      unfolding c_def by (rule parts_loop_stop)
    with "1.prems" have n: "n' = total_read"
      and d': "d' = drop (if total_read < part_size then 1024 else 0) d"
      by simp_all
    from n "1.prems"(2) have lt: "total_read < part_size" by simp
    with False have "c = []" by blast
    then have "d = []" unfolding c_def by simp
    with d' show ?thesis by simp
  qed
qed

lemma parts_loop_overshoot:
  assumes "0 < part_size" and "part_size \<le> 1024" and "1024 \<le> length d"
  shows "parts_loop d part_size [] [] [] 0
     = ((take 1024 d, take 1024 d, take 1024 d, 1024), drop 1024 d)"
proof -
  from assms(3) have ne: "take 1024 d \<noteq> []" by auto
  from assms(3) have len: "int (length (take 1024 d)) = 1024" by simp
  have "parts_loop d part_size [] [] [] 0
      = parts_loop (drop 1024 d) part_size ([] @ take 1024 d) ([] @ take 1024 d)
          ([] @ take 1024 d) (0 + int (length (take 1024 d)))"
    using assms(1) ne by (rule parts_loop_step)
  also have "\<dots> = parts_loop (drop 1024 d) part_size (take 1024 d) (take 1024 d)
          (take 1024 d) 1024"
    by (simp only: len append_Nil add_0)
  also have "\<dots> = ((take 1024 d, take 1024 d, take 1024 d, 1024),
        drop (if (1024::int) < part_size then 1024 else 0) (drop 1024 d))"
    using assms(2) by (intro parts_loop_stop) simp
  also have "\<dots> = ((take 1024 d, take 1024 d, take 1024 d, 1024), drop 1024 d)"
    using assms(2) by simp
  finally show ?thesis .
qed

section \<open>\<^verbatim>\<open>parts_manager\<close> on concrete readers\<close>

text \<open>
  C1, on the reader holding \<^verbatim>\<open>abc\<close> with part size 2. The specification has the
  calls yield parts whose data, concatenated, are the bytes of the reader. The first call raises
  \<^verbatim>\<open>NameError\<close>: no part is yielded and the three bytes stay unread.
\<close>

theorem parts_manager_yields_no_part:
  "parts_manager md5 sha256 ''abc'' 2 = (Inl NameError, ''abc'')"
  by (simp add: parts_manager_def load_global_def module_globals_def)

text \<open>
  C2, on the empty reader with the default part size. The specification has the call
  return the digests of the empty input. The call raises \<^verbatim>\<open>NameError\<close> and returns no
  digest.
\<close>

theorem parts_manager_empty_reader:
  "parts_manager md5 sha256 [] (5 * 1024 * 1024) = (Inl NameError, [])"
  by (simp add: parts_manager_def load_global_def module_globals_def)

text \<open>
  C3, for a reader of one byte with part size 1024. The specification has the call
  return a \<open>PartMetadata\<close> whose size is the number of bytes written. No \<open>PartMetadata\<close> is
  returned.
\<close>

theorem parts_manager_returns_no_size:
  "\<not> (\<exists>pm d'. parts_manager md5 sha256 ''a'' 1024 = (Inr pm, d'))"
  by (simp add: parts_manager_def load_global_def module_globals_def)

end
